theory Spec2Isabelle
  imports Complex_Main
begin

section \<open>Python values used by both front-ends\<close>

text \<open>
  A Python \<open>str\<close> is a \<open>string\<close>, read as the UTF-8 encoding of the text. A Python
  \<open>float\<close> is a \<open>real\<close>: the programs only compare scores with \<open>>=\<close>, which is exact on
  floats, so no rounding is involved (a NaN score is outside the model). An exception
  is represented by its message, the text that \<open>str(e)\<close> gives.
\<close>

type_synonym exn = string

text \<open>
  A Python \<open>dict\<close> keeps its keys unique and in insertion order: an association list.
  \<open>dict_set k v d\<close> is \<open>d[k] = v\<close>: an existing key keeps its position and takes the new
  value, a new key goes to the end.
\<close>

type_synonym ('k, 'v) dict = "('k \<times> 'v) list"

fun dict_set :: "'k \<Rightarrow> 'v \<Rightarrow> ('k, 'v) dict \<Rightarrow> ('k, 'v) dict" where
  "dict_set k v [] = [(k, v)]"
| "dict_set k v ((k', v') # d) =
     (if k' = k then (k, v) # d else (k', v') # dict_set k v d)"

text \<open>\<open>d.update(other)\<close>, and \<open>dict(pairs)\<close> as the update of the empty dict.\<close>

definition dict_update :: "('k, 'v) dict \<Rightarrow> ('k \<times> 'v) list \<Rightarrow> ('k, 'v) dict" where
  "dict_update d other = foldl (\<lambda>acc (k, v). dict_set k v acc) d other"

definition dict_of :: "('k \<times> 'v) list \<Rightarrow> ('k, 'v) dict" where
  "dict_of pairs = dict_update [] pairs"

section \<open>The zero-shot classifier\<close>

text \<open>
  The \<open>transformers\<close> pipeline is outside the repository: a parameter of the model. Called
  with the texts and the candidate labels it either raises or returns one dict for a
  single input or a list of dicts (\<open>isinstance(raw, dict)\<close> tells them apart). Of each dict the
  programs read the keys \<open>labels\<close> and \<open>scores\<close>.
\<close>

record zs_output =
  out_labels :: "string list"
  out_scores :: "real list"

datatype raw_output = One zs_output | Many "zs_output list"

type_synonym Pipeline = "string list \<Rightarrow> string list \<Rightarrow> exn + raw_output"

text \<open>\<open>if isinstance(raw, dict): raw = [raw]\<close>\<close>

fun as_list :: "raw_output \<Rightarrow> zs_output list" where
  "as_list (One res) = [res]"
| "as_list (Many rs) = rs"

text \<open>What a run does besides returning: the classifier calls, the log and the console.\<close>

datatype event =
    Classifier_call "string list" "string list"
  | Load_model
  | Log_error string
  | Log_warning string
  | Print_flagged string
  | Print_label string real
  | Print_safe string
  | Write_json string real "string list" "(string \<times> (string, real) dict) list"

section \<open>SafeTextContentApi.py\<close>

text \<open>
  The module-level options that the handlers read. \<open>ALLOW_GET\<close>, \<open>ALLOW_POST\<close> and
  \<open>ALLOW_FILE_UPLOAD\<close> decide whether a route is registered at all, and \<open>ENABLE_CORS\<close>,
  \<open>HOST\<close>, \<open>PORT\<close> configure the server; no handler reads them.
\<close>

record config =
  ENABLE_TEXT_PARAM :: bool
  ENABLE_FAST_DETECT :: bool

definition shipped_config :: config where
  "shipped_config = \<lparr> ENABLE_TEXT_PARAM = True, ENABLE_FAST_DETECT = True \<rparr>"

definition DEFAULT_LABELS :: "string list" where
  "DEFAULT_LABELS = [''profanity'', ''hate speech'', ''graphic violence'', ''self-harm'',
     ''sexual content'', ''insult'', ''terrorism'']"

record DetectResult =
  r_text :: string
  scores :: "(string, real) dict"
  flagged_labels :: "(string, real) dict"
  is_safe :: "bool option"

text \<open>
  What a handler raises: \<open>HTTPException(status_code, detail)\<close>, the framework's
  \<open>RequestValidationError\<close>, or any other exception.
\<close>

datatype failure =
    HTTPException nat string
  | RequestValidationError
  | Unhandled exn

text \<open>The three exception handlers of the app give the status code of the response.\<close>

fun exception_status :: "failure \<Rightarrow> nat" where
  "exception_status (HTTPException code detail) = code"
| "exception_status RequestValidationError = 422"
| "exception_status (Unhandled e) = 500"

definition response_status :: "failure + 'a \<Rightarrow> nat" where
  "response_status r = (case r of Inl f \<Rightarrow> exception_status f | Inr _ \<Rightarrow> 200)"

text \<open>The body of the \<open>for text, res in zip(texts, raw)\<close> loop of \<open>classify_texts\<close>.\<close>

definition make_result :: "config \<Rightarrow> real \<Rightarrow> string \<times> zs_output \<Rightarrow> DetectResult" where
  "make_result cfg threshold = (\<lambda>(text, res).
     let label_scores = dict_of (zip (out_labels res) (out_scores res));
         flagged = dict_of (filter (\<lambda>(lbl, sc). sc \<ge> threshold) label_scores);
         safe = (if ENABLE_FAST_DETECT cfg then Some (length flagged = 0) else None)
     in \<lparr> r_text = text, scores = label_scores, flagged_labels = flagged, is_safe = safe \<rparr>)"

definition classify_texts ::
  "config \<Rightarrow> Pipeline \<Rightarrow> string list \<Rightarrow> string list \<Rightarrow> real
     \<Rightarrow> (failure + DetectResult list) \<times> event list" where
  "classify_texts cfg classifier texts labels threshold =
     (case classifier texts labels of
        Inl e \<Rightarrow>
          (Inl (HTTPException 500 ''Internal classification error''),
           [Classifier_call texts labels, Log_error (''Classification error: '' @ e)])
      | Inr raw \<Rightarrow>
          (Inr (map (make_result cfg threshold) (zip texts (as_list raw))),
           [Classifier_call texts labels]))"

record DetectResponse =
  results :: "DetectResult list"

text \<open>\<open>x or DEFAULT_LABELS\<close>: \<open>None\<close> and the empty list are falsy.\<close>

fun or_default :: "'a list option \<Rightarrow> 'a list \<Rightarrow> 'a list" where
  "or_default None dflt = dflt"
| "or_default (Some []) dflt = dflt"
| "or_default (Some (x # xs)) dflt = x # xs"

text \<open>\<open>DetectResponse(results=classify_texts(texts, labels, threshold))\<close>\<close>

definition respond ::
  "(failure + DetectResult list) \<times> event list \<Rightarrow> (failure + DetectResponse) \<times> event list" where
  "respond out = (case out of
       (Inl f, evs) \<Rightarrow> (Inl f, evs)
     | (Inr rs, evs) \<Rightarrow> (Inr \<lparr> results = rs \<rparr>, evs))"

subsection \<open>POST /detect\<close>




definition in_unit_interval :: "real \<Rightarrow> bool" where
  "in_unit_interval t \<longleftrightarrow> 0 \<le> t \<and> t \<le> 1"




subsection \<open>GET /detect\<close>

text \<open>The handler, with its four parameters as the framework binds them.\<close>

definition detect_get ::
  "config \<Rightarrow> Pipeline \<Rightarrow> string list option \<Rightarrow> string option \<Rightarrow> string list option \<Rightarrow> real
     \<Rightarrow> (failure + DetectResponse) \<times> event list" where
  "detect_get cfg classifier texts text labels threshold =
     (case text of
        Some t \<Rightarrow>
          if \<not> ENABLE_TEXT_PARAM cfg
          then (Inl (HTTPException 400 ''Single-text query param 'text' not supported''), [])
          else respond (classify_texts cfg classifier [t]
                          (or_default labels DEFAULT_LABELS) threshold)
      | None \<Rightarrow>
          (case texts of
             Some (x # xs) \<Rightarrow>
               respond (classify_texts cfg classifier (x # xs)
                          (or_default labels DEFAULT_LABELS) threshold)
           | _ \<Rightarrow>
               (Inl (HTTPException 422 ''Provide either 'texts' or 'text' query parameter''),
                [])))"

text \<open>
  The query string: each parameter is absent or present. \<open>Query(DEFAULT_LABELS)\<close> and
  \<open>Query(0.5, ge=0.0, le=1.0)\<close> give the values of absent parameters and the check
  on a threshold that is present; \<open>texts\<close> and \<open>text\<close> default to \<open>None\<close>.
\<close>

record query =
  q_texts :: "string list option"
  q_text :: "string option"
  q_labels :: "string list option"
  q_threshold :: "real option"

definition get_detect ::
  "config \<Rightarrow> Pipeline \<Rightarrow> query \<Rightarrow> (failure + DetectResponse) \<times> event list" where
  "get_detect cfg classifier q =
     (case q_threshold q of
        Some t \<Rightarrow>
          if in_unit_interval t
          then detect_get cfg classifier (q_texts q) (q_text q)
                 (case q_labels q of None \<Rightarrow> Some DEFAULT_LABELS | Some ls \<Rightarrow> Some ls) t
          else (Inl RequestValidationError, [])
      | None \<Rightarrow>
          detect_get cfg classifier (q_texts q) (q_text q)
            (case q_labels q of None \<Rightarrow> Some DEFAULT_LABELS | Some ls \<Rightarrow> Some ls) (1 / 2))"

subsection \<open>POST /detect/file\<close>

text \<open>
  \<open>str.splitlines()\<close>: a line ends at \<open>\n\<close>, \<open>\r\<close>, \<open>\r\n\<close>, \<open>\v\<close>, \<open>\f\<close>, \<open>\x1c\<close>,
  \<open>\x1d\<close>, \<open>\x1e\<close>, U+0085, U+2028 or U+2029 (the last three as their UTF-8 bytes); the
  terminators are dropped, and a terminator at the very end opens no further line.
  \<open>line_break s\<close> is the length of the terminator that \<open>s\<close> starts with, \<open>0\<close> if none.
\<close>

definition line_break :: "string \<Rightarrow> nat" where
  "line_break s =
     (if take 2 s = [CHR 0x0D, CHR 0x0A] then 2
      else if take 1 s \<in> set [[CHR 0x0A], [CHR 0x0D], [CHR 0x0B], [CHR 0x0C],
                                [CHR 0x1C], [CHR 0x1D], [CHR 0x1E]] then 1
      else if take 2 s = [CHR 0xC2, CHR 0x85] then 2
      else if take 3 s = [CHR 0xE2, CHR 0x80, CHR 0xA8] then 3
      else if take 3 s = [CHR 0xE2, CHR 0x80, CHR 0xA9] then 3
      else 0)"

function splitlines_from :: "string \<Rightarrow> string \<Rightarrow> string list" where
  "splitlines_from cur [] = (if cur = [] then [] else [cur])"
| "splitlines_from cur (c # cs) =
     (if line_break (c # cs) = 0 then splitlines_from (cur @ [c]) cs
      else cur # splitlines_from [] (drop (line_break (c # cs) - 1) cs))"
  by pat_completeness auto
termination
  by (relation "measure (\<lambda>(cur, s). length s)") auto

definition splitlines :: "string \<Rightarrow> string list" where
  "splitlines s = splitlines_from [] s"

text \<open>Whether a line terminator stands anywhere in a string.\<close>

fun has_break :: "string \<Rightarrow> bool" where
  "has_break [] = False"
| "has_break (c # cs) = (line_break (c # cs) > 0 \<or> has_break cs)"

text \<open>
  The uploaded file: its declared content type (which may be missing) and what
  \<open>(await file.read()).decode("utf-8")\<close> gives, the text or a decoding error.
\<close>

record UploadFile =
  content_type :: "string option"
  decoded :: "exn + string"

definition detect_file ::
  "config \<Rightarrow> Pipeline \<Rightarrow> UploadFile \<Rightarrow> string list \<Rightarrow> real
     \<Rightarrow> (failure + DetectResponse) \<times> event list" where
  "detect_file cfg classifier file labels threshold =
     (if content_type file \<noteq> Some ''text/plain''
      then (Inl (HTTPException 400 ''Only text/plain supported.''), [])
      else case decoded file of
             Inl e \<Rightarrow> (Inl (Unhandled e), [])
           | Inr content \<Rightarrow>
               let texts_list = (if CHR 0x0A \<in> set content then splitlines content else [content])
               in respond (classify_texts cfg classifier texts_list labels threshold))"

text \<open>The multipart form: the file is required, \<open>labels\<close> and \<open>threshold\<close> have \<open>Form\<close> defaults.\<close>

record form =
  f_file :: "UploadFile option"
  f_labels :: "string list option"
  f_threshold :: "real option"

definition post_detect_file ::
  "config \<Rightarrow> Pipeline \<Rightarrow> form \<Rightarrow> (failure + DetectResponse) \<times> event list" where
  "post_detect_file cfg classifier f =
     (case f_file f of
        None \<Rightarrow> (Inl RequestValidationError, [])
      | Some file \<Rightarrow>
          (case f_threshold f of
             Some t \<Rightarrow>
               if in_unit_interval t
               then detect_file cfg classifier file
                      (case f_labels f of None \<Rightarrow> DEFAULT_LABELS | Some ls \<Rightarrow> ls) t
               else (Inl RequestValidationError, [])
           | None \<Rightarrow>
               detect_file cfg classifier file
                 (case f_labels f of None \<Rightarrow> DEFAULT_LABELS | Some ls \<Rightarrow> ls) (1 / 2)))"

section \<open>The command-line tool, bad_text_detector.py\<close>

text \<open>
  The operating system as the tool sees it: \<open>os.path.isfile\<close>, \<open>os.path.isdir\<close>,
  \<open>os.walk\<close> (the triples \<open>(dirpath, dirs, files)\<close> in the order it yields them),
  \<open>open(path, encoding="utf-8").read()\<close> and the writing of the output file
  (\<open>None\<close> when it succeeds).
\<close>

record os =
  os_isfile :: "string \<Rightarrow> bool"
  os_isdir :: "string \<Rightarrow> bool"
  os_walk :: "string \<Rightarrow> (string \<times> string list \<times> string list) list"
  os_read :: "string \<Rightarrow> exn + string"
  os_write :: "string \<Rightarrow> exn option"

text \<open>\<open>name.lower()\<close> on the ASCII letters, which is all that the suffix test can see.\<close>

definition lower_char :: "char \<Rightarrow> char" where
  "lower_char c =
     (case map_of (zip ''ABCDEFGHIJKLMNOPQRSTUVWXYZ'' ''abcdefghijklmnopqrstuvwxyz'') c of
        Some l \<Rightarrow> l
      | None \<Rightarrow> c)"

definition lower :: "string \<Rightarrow> string" where
  "lower s = map lower_char s"

definition endswith :: "string \<Rightarrow> string \<Rightarrow> bool" where
  "endswith s suffix \<longleftrightarrow>
     length suffix \<le> length s \<and> drop (length s - length suffix) s = suffix"

text \<open>\<open>os.path.join(dirpath, name)\<close> on POSIX.\<close>

definition os_path_join :: "string \<Rightarrow> string \<Rightarrow> string" where
  "os_path_join dirpath name =
     (if take 1 name = ''/'' then name
      else if dirpath = [] \<or> last dirpath = CHR ''/'' then dirpath @ name
      else dirpath @ ''/'' @ name)"

text \<open>
  \<open>load_texts_from_dir\<close>: the state of the two nested loops is the dict \<open>texts\<close> and the
  warnings logged so far. \<open>read_into\<close> is the \<open>try\<close> statement, \<open>load_file\<close> the body of
  the inner loop.
\<close>

definition unreadable :: "string \<Rightarrow> exn \<Rightarrow> event" where
  "unreadable path e = Log_warning (''Could not read '' @ path @ '': '' @ e)"

definition read_into ::
  "os \<Rightarrow> (string, string) dict \<times> event list \<Rightarrow> string
     \<Rightarrow> (string, string) dict \<times> event list" where
  "read_into sys st path =
     (case os_read sys path of
        Inr content \<Rightarrow> (dict_set path content (fst st), snd st)
      | Inl e \<Rightarrow> (fst st, snd st @ [unreadable path e]))"

definition load_file ::
  "os \<Rightarrow> string \<Rightarrow> (string, string) dict \<times> event list \<Rightarrow> string
     \<Rightarrow> (string, string) dict \<times> event list" where
  "load_file sys dirpath st name =
     (if endswith (lower name) ''.txt''
      then let path = os_path_join dirpath name in read_into sys st path
      else st)"

definition load_texts_from_dir :: "os \<Rightarrow> string \<Rightarrow> (string, string) dict \<times> event list" where
  "load_texts_from_dir sys directory =
     foldl (\<lambda>st (dirpath, dirs, files). foldl (load_file sys dirpath) st files)
       ([], []) (os_walk sys directory)"

definition detect_bad_content ::
  "Pipeline \<Rightarrow> string list \<Rightarrow> string list \<Rightarrow> (exn + zs_output list) \<times> event list" where
  "detect_bad_content classifier texts labels =
     (case classifier texts labels of
        Inl e \<Rightarrow> (Inl e, [Classifier_call texts labels])
      | Inr res \<Rightarrow> (Inr (as_list res), [Classifier_call texts labels]))"

text \<open>
  The command line as typed (an option is absent or carries its converted value) and
  the namespace that \<open>parse_args\<close> returns, with the declared defaults filled in.
\<close>

record cli =
  cli_text :: "string option"
  cli_file :: "string option"
  cli_dir :: "string option"
  cli_labels :: "string list option"
  cli_threshold :: "real option"
  cli_output :: "string option"
  cli_verbose :: bool

record args =
  args_text :: "string option"
  args_file :: "string option"
  args_dir :: "string option"
  args_labels :: "string list"
  args_threshold :: real
  args_output :: "string option"
  args_verbose :: bool

definition parse_args :: "cli \<Rightarrow> args" where
  "parse_args c =
     \<lparr> args_text = cli_text c, args_file = cli_file c, args_dir = cli_dir c,
       args_labels = (case cli_labels c of None \<Rightarrow> DEFAULT_LABELS | Some ls \<Rightarrow> ls),
       args_threshold = (case cli_threshold c of None \<Rightarrow> 1 / 2 | Some t \<Rightarrow> t),
       args_output = cli_output c, args_verbose = cli_verbose c \<rparr>"

text \<open>\<open>if args.text:\<close> and its like: an option that is absent or empty is falsy.\<close>

fun given :: "string option \<Rightarrow> string option" where
  "given None = None"
| "given (Some []) = None"
| "given (Some (c # cs)) = Some (c # cs)"

text \<open>How a run of the tool ends.\<close>

datatype outcome =
    Finished
  | Exit nat
  | Usage_error string
  | Uncaught exn

text \<open>
  \<open>main\<close>, lines 101 to 115: the dict \<open>inputs\<close> from \<open>--text\<close>, \<open>--file\<close> and \<open>--dir\<close>,
  in that order, or the way the run ends before it is complete.
\<close>

definition add_text :: "args \<Rightarrow> (string, string) dict" where
  "add_text a = (case given (args_text a) of
       Some t \<Rightarrow> dict_set ''<input>'' t []
     | None \<Rightarrow> [])"

definition add_file ::
  "os \<Rightarrow> args \<Rightarrow> (string, string) dict \<Rightarrow> (outcome + (string, string) dict) \<times> event list" where
  "add_file sys a inputs = (case given (args_file a) of
       None \<Rightarrow> (Inr inputs, [])
     | Some path \<Rightarrow>
         if \<not> os_isfile sys path
         then (Inl (Exit 1), [Log_error (''File not found: '' @ path)])
         else (case os_read sys path of
                 Inl e \<Rightarrow> (Inl (Uncaught e), [])
               | Inr content \<Rightarrow> (Inr (dict_set path content inputs), [])))"

definition add_dir ::
  "os \<Rightarrow> args \<Rightarrow> (string, string) dict \<Rightarrow> (outcome + (string, string) dict) \<times> event list" where
  "add_dir sys a inputs = (case given (args_dir a) of
       None \<Rightarrow> (Inr inputs, [])
     | Some d \<Rightarrow>
         if \<not> os_isdir sys d
         then (Inl (Exit 1), [Log_error (''Directory not found: '' @ d)])
         else (Inr (dict_update inputs (fst (load_texts_from_dir sys d))),
               snd (load_texts_from_dir sys d)))"

definition prepare_inputs ::
  "os \<Rightarrow> args \<Rightarrow> (outcome + (string, string) dict) \<times> event list" where
  "prepare_inputs sys a =
     (case add_file sys a (add_text a) of
        (Inl stop, evs) \<Rightarrow> (Inl stop, evs)
      | (Inr inputs, evs) \<Rightarrow>
          (case add_dir sys a inputs of
             (Inl stop, evs') \<Rightarrow> (Inl stop, evs @ evs')
           | (Inr inputs', evs') \<Rightarrow> (Inr inputs', evs @ evs')))"

text \<open>
  Lines 126 to 140: the loop over \<open>zip(inputs.items(), results)\<close>. Its state is the two
  dicts \<open>flagged\<close> and \<open>safe\<close> and the lines printed so far; a printed score keeps its
  value (the \<open>.2f\<close> rendering is not modelled).
\<close>

record report =
  flagged :: "(string, (string, real) dict) dict"
  safe :: "(string, (string, real) dict) dict"
  printed :: "event list"

definition report_entry :: "real \<Rightarrow> report \<Rightarrow> (string \<times> string) \<times> zs_output \<Rightarrow> report" where
  "report_entry threshold st = (\<lambda>((source, text), res).
     let label_scores = dict_of (zip (out_labels res) (out_scores res));
         high = dict_of (filter (\<lambda>(lbl, sc). sc \<ge> threshold) label_scores)
     in if high \<noteq> []
        then st \<lparr> flagged := dict_set source high (flagged st),
                  printed := printed st @ Print_flagged source
                               # map (\<lambda>(lbl, sc). Print_label lbl sc) high \<rparr>
        else st \<lparr> safe := dict_set source label_scores (safe st),
                  printed := printed st @ [Print_safe source] \<rparr>)"

definition report_all ::
  "real \<Rightarrow> (string, string) dict \<Rightarrow> zs_output list \<Rightarrow> report" where
  "report_all threshold inputs rs =
     foldl (report_entry threshold) \<lparr> flagged = [], safe = [], printed = [] \<rparr> (zip inputs rs)"

text \<open>Lines 143 to 157: the optional JSON file.\<close>

definition save_output ::
  "os \<Rightarrow> args \<Rightarrow> (string, string) dict \<Rightarrow> zs_output list \<Rightarrow> event list" where
  "save_output sys a inputs rs = (case given (args_output a) of
       None \<Rightarrow> []
     | Some path \<Rightarrow>
         (case os_write sys path of
            None \<Rightarrow>
              [Write_json path (args_threshold a) (args_labels a)
                 (map (\<lambda>(src, res). (src, dict_of (zip (out_labels res) (out_scores res))))
                    (zip (map fst inputs) rs))]
          | Some e \<Rightarrow> [Log_error (''Could not write output file: '' @ e)]))"

text \<open>
  \<open>main\<close>. \<open>classifier\<close> is the object that \<open>pipeline(...)\<close> returns; \<open>Load_model\<close> marks that
  call. Lines logged at INFO level are left out of the trace.
\<close>

definition main :: "os \<Rightarrow> Pipeline \<Rightarrow> cli \<Rightarrow> outcome \<times> event list" where
  "main sys classifier c =
     (let a = parse_args c in
      case prepare_inputs sys a of
        (Inl stop, evs) \<Rightarrow> (stop, evs)
      | (Inr inputs, evs) \<Rightarrow>
          if inputs = []
          then (Usage_error ''Please specify --text, --file, or --dir with at least one input'',
                evs)
          else
            (case detect_bad_content classifier (map snd inputs) (args_labels a) of
               (Inl e, evs') \<Rightarrow> (Uncaught e, evs @ Load_model # evs')
             | (Inr rs, evs') \<Rightarrow>
                 (Finished,
                  evs @ Load_model # evs'
                    @ printed (report_all (args_threshold a) inputs rs)
                    @ save_output sys a inputs rs)))"

section \<open>Reading a trace\<close>

text \<open>The classifier calls of a trace, the events that load or call the classifier, the
  events that show or save a result, and the log entries.\<close>

fun is_call :: "event \<Rightarrow> bool" where
  "is_call (Classifier_call ts ls) = True"
| "is_call _ = False"

fun uses_classifier :: "event \<Rightarrow> bool" where
  "uses_classifier (Classifier_call ts ls) = True"
| "uses_classifier Load_model = True"
| "uses_classifier _ = False"

fun is_result :: "event \<Rightarrow> bool" where
  "is_result (Print_flagged src) = True"
| "is_result (Print_label lbl sc) = True"
| "is_result (Print_safe src) = True"
| "is_result (Write_json path th ls rs) = True"
| "is_result _ = False"

fun is_log :: "event \<Rightarrow> bool" where
  "is_log (Log_error msg) = True"
| "is_log (Log_warning msg) = True"
| "is_log _ = False"

text \<open>The sources of the records on the console, one per \<open>[FLAGGED]\<close> or \<open>[ SAFE ]\<close>
  line, and the records of the JSON file, if one was written.\<close>

fun reported :: "event list \<Rightarrow> string list" where
  "reported [] = []"
| "reported (Print_flagged src # evs) = src # reported evs"
| "reported (Print_safe src # evs) = src # reported evs"
| "reported (e # evs) = reported evs"

fun saved :: "event list \<Rightarrow> (string \<times> (string, real) dict) list" where
  "saved [] = []"
| "saved (Write_json path th ls rs # evs) = rs @ saved evs"
| "saved (e # evs) = saved evs"

text \<open>
  The paths of the \<open>.txt\<close> files that \<open>load_texts_from_dir\<close> comes to, in the order of
  its two loops, and whether a path can be read.
\<close>

definition discovered :: "os \<Rightarrow> string \<Rightarrow> string list" where
  "discovered sys directory =
     concat (map (\<lambda>(dirpath, dirs, files).
                    map (os_path_join dirpath)
                      (filter (\<lambda>name. endswith (lower name) ''.txt'') files))
               (os_walk sys directory))"

definition readable :: "os \<Rightarrow> string \<Rightarrow> bool" where
  "readable sys path = (case os_read sys path of Inr content \<Rightarrow> True | Inl e \<Rightarrow> False)"

section \<open>Concrete inputs\<close>

text \<open>A classifier that scores every text alike, one that always fails, and a small
  file system, for evaluating the definitions.\<close>

definition demo_classifier :: Pipeline where
  "demo_classifier texts labels =
     Inr (Many (map (\<lambda>t. \<lparr> out_labels = [''insult'', ''profanity''],
                             out_scores = [9 / 10, 1 / 10] \<rparr>) texts))"

definition demo_result :: DetectResult where
  "demo_result = \<lparr> r_text = ''you fool'',
     scores = [(''insult'', 9 / 10), (''profanity'', 1 / 10)],
     flagged_labels = [(''insult'', 9 / 10)], is_safe = Some False \<rparr>"



definition demo_query :: query where
  "demo_query = \<lparr> q_texts = Some [''one'', ''two''], q_text = Some ''you fool'',
     q_labels = None, q_threshold = None \<rparr>"

definition empty_query :: query where
  "empty_query = \<lparr> q_texts = None, q_text = None, q_labels = None, q_threshold = None \<rparr>"

definition no_text_param :: config where
  "no_text_param = \<lparr> ENABLE_TEXT_PARAM = False, ENABLE_FAST_DETECT = True \<rparr>"

definition demo_upload :: UploadFile where
  "demo_upload = \<lparr> content_type = Some ''text/plain'',
     decoded = Inr (''you fool'' @ [CHR 0x0A] @ ''good day'' @ [CHR 0x0A]) \<rparr>"

definition demo_image :: UploadFile where
  "demo_image = \<lparr> content_type = Some ''image/png'', decoded = Inl ''invalid start byte'' \<rparr>"


definition image_form :: form where
  "image_form = \<lparr> f_file = Some demo_image, f_labels = None, f_threshold = None \<rparr>"

text \<open>
  A directory \<open>d\<close> holding \<open>a.txt\<close>, \<open>b.TXT\<close> (which cannot be read), \<open>c.md\<close> and
  \<open>sub/e.txt\<close>, and a file \<open>f.txt\<close> of two lines beside it.
\<close>

definition demo_os :: os where
  "demo_os = \<lparr>
     os_isfile = (\<lambda>p. p = ''f.txt''),
     os_isdir = (\<lambda>p. p = ''d''),
     os_walk = (\<lambda>p. if p = ''d''
        then [(''d'', [''sub''], [''a.txt'', ''b.TXT'', ''c.md'']), (''d/sub'', [], [''e.txt''])]
        else []),
     os_read = (\<lambda>p. if p = ''d/b.TXT'' then Inl ''Permission denied''
        else if p = ''f.txt'' then Inr (''you fool'' @ [CHR 0x0A] @ ''good day'')
        else Inr ''hello''),
     os_write = (\<lambda>p. None) \<rparr>"

definition no_options :: cli where
  "no_options = \<lparr> cli_text = None, cli_file = None, cli_dir = None, cli_labels = None,
     cli_threshold = None, cli_output = None, cli_verbose = False \<rparr>"


definition file_option :: cli where
  "file_option = no_options \<lparr> cli_file := Some ''f.txt'' \<rparr>"

definition dir_option :: cli where
  "dir_option = no_options \<lparr> cli_dir := Some ''d'' \<rparr>"

section \<open>Dictionaries: keys stay distinct\<close>

lemma dict_set_keys:
  "map fst (dict_set k v d) = (if k \<in> fst ` set d then map fst d else map fst d @ [k])"
  by (induction d) force+

lemma dict_set_distinct:"distinct (map fst d) \<Longrightarrow> distinct (map fst (dict_set k v d))"
  by (simp add: dict_set_keys)

lemma dict_set_map_of: "map_of (dict_set k v d) = (map_of d)(k \<mapsto> v)"
  by (induction d) (auto simp: fun_eq_iff)

lemma dict_set_fresh: "k \<notin> fst ` set d \<Longrightarrow> dict_set k v d = d @ [(k, v)]"
  by (induction d) auto

lemma dict_update_distinct:
  "distinct (map fst d) \<Longrightarrow> distinct (map fst (dict_update d other))"
  unfolding dict_update_def
  by (induction other arbitrary: d) (auto simp: dict_set_distinct)

lemma dict_of_distinct: "distinct (map fst (dict_of pairs))"
  by (simp add: dict_of_def dict_update_distinct)

lemma dict_update_fresh:
  "distinct (map fst (d @ other)) \<Longrightarrow> dict_update d other = d @ other"
  unfolding dict_update_def
proof (induction other arbitrary: d)
  case Nil
  then show ?case by simp
next
  case (Cons p other)
  obtain k v where p: "p = (k, v)" by (cases p)
  from Cons.prems p have fresh: "k \<notin> fst ` set d" by auto
  from Cons.prems p have "distinct (map fst ((d @ [(k, v)]) @ other))" by simp
  from Cons.IH [OF this] show ?case by (simp add: p dict_set_fresh [OF fresh])
qed

lemma dict_of_id: "distinct (map fst pairs) \<Longrightarrow> dict_of pairs = pairs"
  using dict_update_fresh [of "[]" pairs] by (simp add: dict_of_def)

lemma dict_of_filter:
  "distinct (map fst d) \<Longrightarrow> dict_of (filter P d) = filter P d"
  by (rule dict_of_id) (simp add: distinct_map_filter)

section \<open>Status codes\<close>

lemma response_status_simps [simp]:
  "response_status (Inl f) = exception_status f"
  "response_status (Inr x) = 200"
  by (simp_all add: response_status_def)

section \<open>What each stage leaves in the trace\<close>

lemma respond_fst:
  "fst (respond out) = (case fst out of Inl f \<Rightarrow> Inl f | Inr rs \<Rightarrow> Inr \<lparr> results = rs \<rparr>)"
  by (cases out) (simp add: respond_def split: sum.splits)

lemma respond_snd [simp]: "snd (respond out) = snd out"
  by (cases out) (simp add: respond_def split: sum.splits)










text \<open>Collecting the inputs only logs.\<close>

lemma load_file_log:
  "list_all is_log (snd st) \<Longrightarrow> list_all is_log (snd (load_file sys dirpath st name))"
  by (simp add: load_file_def read_into_def unreadable_def Let_def split: sum.splits)

lemma foldl_load_file_log:
  "list_all is_log (snd st) \<Longrightarrow> list_all is_log (snd (foldl (load_file sys dirpath) st names))"
  by (induction names arbitrary: st) (simp_all add: load_file_log)

lemma load_texts_from_dir_log: "list_all is_log (snd (load_texts_from_dir sys directory))"
proof -
  have "list_all is_log (snd st) \<Longrightarrow>
      list_all is_log (snd (foldl (\<lambda>st (dirpath, dirs, files).
        foldl (load_file sys dirpath) st files) st triples))"
    for st and triples :: "(string \<times> string list \<times> string list) list"
  proof (induction triples arbitrary: st)
    case Nil
    then show ?case by simp
  next
    case (Cons x xs)
    obtain r ds fs where x: "x = (r, ds, fs)" by (cases x)
    from Cons.IH [OF foldl_load_file_log [OF Cons.prems, of sys r fs]]
    show ?case by (simp add: x)
  qed
  then show ?thesis by (simp add: load_texts_from_dir_def)
qed

lemma prepare_inputs_log:
  "list_all is_log (snd (prepare_inputs sys a))"
  by (auto simp: prepare_inputs_def add_file_def add_dir_def load_texts_from_dir_log
      split: prod.splits sum.splits option.splits)

lemma log_is_quiet:
  "list_all is_log evs \<Longrightarrow>
   filter is_call evs = [] \<and> filter uses_classifier evs = [] \<and> filter is_result evs = []
   \<and> reported evs = [] \<and> saved evs = []"
proof (induction evs)
  case Nil
  then show ?case by simp
next
  case (Cons e evs)
  then show ?case by (cases e) simp_all
qed

section \<open>The four ways a run of the tool ends\<close>


lemma main_usage:
  "prepare_inputs sys (parse_args c) = (Inr [], evs) \<Longrightarrow>
   main sys classifier c =
     (Usage_error ''Please specify --text, --file, or --dir with at least one input'', evs)"
  by (simp add: main_def Let_def)

lemma main_fails:
  "prepare_inputs sys (parse_args c) = (Inr inputs, evs) \<Longrightarrow> inputs \<noteq> [] \<Longrightarrow>
   classifier (map snd inputs) (args_labels (parse_args c)) = Inl e \<Longrightarrow>
   main sys classifier c =
     (Uncaught e,
      evs @ [Load_model, Classifier_call (map snd inputs) (args_labels (parse_args c))])"
  by (simp add: main_def detect_bad_content_def Let_def)

lemma main_runs:
  "prepare_inputs sys (parse_args c) = (Inr inputs, evs) \<Longrightarrow> inputs \<noteq> [] \<Longrightarrow>
   classifier (map snd inputs) (args_labels (parse_args c)) = Inr raw \<Longrightarrow>
   main sys classifier c =
     (Finished,
      evs @ [Load_model, Classifier_call (map snd inputs) (args_labels (parse_args c))]
        @ printed (report_all (args_threshold (parse_args c)) inputs (as_list raw))
        @ save_output sys (parse_args c) inputs (as_list raw))"
  by (simp add: main_def detect_bad_content_def Let_def)

lemma reported_append [simp]: "reported (xs @ ys) = reported xs @ reported ys"
  by (induction xs rule: reported.induct) simp_all

lemma saved_append [simp]: "saved (xs @ ys) = saved xs @ saved ys"
  by (induction xs rule: saved.induct) simp_all

lemma reported_labels [simp]: "reported (map (\<lambda>(lbl, sc). Print_label lbl sc) high) = []"
  by (induction high) auto

lemma saved_labels [simp]: "saved (map (\<lambda>(lbl, sc). Print_label lbl sc) high) = []"
  by (induction high) auto

lemma calls_labels [simp]: "filter is_call (map (\<lambda>(lbl, sc). Print_label lbl sc) high) = []"
  by (induction high) auto

lemma logs_labels [simp]: "filter is_log (map (\<lambda>(lbl, sc). Print_label lbl sc) high) = []"
  by (induction high) auto

lemma report_entry_reads:
  "reported (printed (report_entry t st ((src, tx), res))) = reported (printed st) @ [src]"
  "saved (printed (report_entry t st ((src, tx), res))) = saved (printed st)"
  "filter is_call (printed (report_entry t st ((src, tx), res))) = filter is_call (printed st)"
  "filter is_log (printed (report_entry t st ((src, tx), res))) = filter is_log (printed st)"
  by (simp_all add: report_entry_def Let_def)

lemma foldl_report_reads:
  "reported (printed (foldl (report_entry t) st xs)) = reported (printed st) @ map (fst \<circ> fst) xs
   \<and> saved (printed (foldl (report_entry t) st xs)) = saved (printed st)
   \<and> filter is_call (printed (foldl (report_entry t) st xs)) = filter is_call (printed st)
   \<and> filter is_log (printed (foldl (report_entry t) st xs)) = filter is_log (printed st)"
proof (induction xs arbitrary: st)
  case Nil
  then show ?case by simp
next
  case (Cons x xs)
  obtain src tx res where x: "x = ((src, tx), res)" by (cases x) auto
  show ?case by (simp add: Cons.IH x report_entry_reads)
qed

lemma zip_sources:
  "map (fst \<circ> fst) (zip inputs rs) = map fst (take (length rs) inputs)"
  "map fst (map (\<lambda>(src, res). (src, f res)) (zip (map fst inputs) rs))
     = map fst (take (length rs) inputs)"
  by (induction inputs rs rule: list_induct2') simp_all

lemma report_all_reads:
  "reported (printed (report_all t inputs rs)) = map fst (take (length rs) inputs)"
  "saved (printed (report_all t inputs rs)) = []"
  "filter is_call (printed (report_all t inputs rs)) = []"
  "filter is_log (printed (report_all t inputs rs)) = []"
proof -
  show "reported (printed (report_all t inputs rs)) = map fst (take (length rs) inputs)"
    by (simp add: report_all_def foldl_report_reads zip_sources)
  show "saved (printed (report_all t inputs rs)) = []"
    and "filter is_call (printed (report_all t inputs rs)) = []"
    and "filter is_log (printed (report_all t inputs rs)) = []"
    by (simp_all add: report_all_def foldl_report_reads)
qed

lemma save_output_reads:
  "reported (save_output sys a inputs rs) = []"
  "filter is_call (save_output sys a inputs rs) = []"
  "map fst (saved (save_output sys a inputs rs)) =
     (case given (args_output a) of
        None \<Rightarrow> []
      | Some path \<Rightarrow>
          (case os_write sys path of
             None \<Rightarrow> map fst (take (length rs) inputs)
           | Some e \<Rightarrow> []))"
proof -
  show "map fst (saved (save_output sys a inputs rs)) =
     (case given (args_output a) of
        None \<Rightarrow> []
      | Some path \<Rightarrow>
          (case os_write sys path of
             None \<Rightarrow> map fst (take (length rs) inputs)
           | Some e \<Rightarrow> []))"
    by (simp add: save_output_def zip_sources del: map_map split: option.splits)
  show "reported (save_output sys a inputs rs) = []"
    and "filter is_call (save_output sys a inputs rs) = []"
    by (simp_all add: save_output_def split: option.splits)
qed

section \<open>Loading a directory\<close>

lemma foldl_load_file:
  "foldl (load_file sys dirpath) st names =
     foldl (read_into sys) st
       (map (os_path_join dirpath) (filter (\<lambda>name. endswith (lower name) ''.txt'') names))"
  by (induction names arbitrary: st) (simp_all add: load_file_def)

lemma load_texts_from_dir_paths:
  "load_texts_from_dir sys directory = foldl (read_into sys) ([], []) (discovered sys directory)"
proof -
  have "foldl (\<lambda>st (dirpath, dirs, files). foldl (load_file sys dirpath) st files) st triples =
      foldl (read_into sys) st
        (concat (map (\<lambda>(dirpath, dirs, files).
                    map (os_path_join dirpath)
                      (filter (\<lambda>name. endswith (lower name) ''.txt'') files)) triples))"
    for st and triples :: "(string \<times> string list \<times> string list) list"
  proof (induction triples arbitrary: st)
    case Nil
    then show ?case by simp
  next
    case (Cons x xs)
    obtain r ds fs where x: "x = (r, ds, fs)" by (cases x)
    show ?case using Cons.IH [of "foldl (load_file sys r) st fs"]
      by (simp add: x foldl_load_file)
  qed
  then show ?thesis by (simp add: load_texts_from_dir_def discovered_def)
qed

lemma foldl_read_into:
  "distinct (map fst texts @ paths) \<Longrightarrow>
   foldl (read_into sys) (texts, warns) paths =
     (texts @ map (\<lambda>p. (p, projr (os_read sys p))) (filter (readable sys) paths),
      warns @ map (\<lambda>p. unreadable p (projl (os_read sys p)))
              (filter (\<lambda>p. \<not> readable sys p) paths))"
proof (induction paths arbitrary: texts warns)
  case Nil
  then show ?case by simp
next
  case (Cons p paths)
  from Cons.prems have fresh: "p \<notin> fst ` set texts" by auto
  show ?case
  proof (cases "os_read sys p")
    case (Inl e)
    from Cons.prems have "distinct (map fst texts @ paths)" by simp
    from Cons.IH [OF this] Inl show ?thesis by (simp add: read_into_def readable_def)
  next
    case (Inr content)
    from Cons.prems have "distinct (map fst (texts @ [(p, content)]) @ paths)" by simp
    from Cons.IH [OF this] Inr fresh show ?thesis
      by (simp add: read_into_def readable_def dict_set_fresh)
  qed
qed

lemma load_texts_from_dir_distinct:
  "distinct (discovered sys directory) \<Longrightarrow>
   load_texts_from_dir sys directory =
     (map (\<lambda>p. (p, projr (os_read sys p))) (filter (readable sys) (discovered sys directory)),
      map (\<lambda>p. unreadable p (projl (os_read sys p)))
        (filter (\<lambda>p. \<not> readable sys p) (discovered sys directory)))"
  using foldl_read_into [of "[]" "discovered sys directory" sys "[]"]
  by (simp add: load_texts_from_dir_paths)

lemma load_texts_from_dir_keys: "distinct (map fst (fst (load_texts_from_dir sys directory)))"
proof -
  have "distinct (map fst (fst st)) \<Longrightarrow> distinct (map fst (fst (foldl (read_into sys) st paths)))"
    for st paths
    by (induction paths arbitrary: st)
      (auto simp: read_into_def dict_set_distinct split: sum.splits)
  then show ?thesis by (simp add: load_texts_from_dir_paths)
qed

lemma prepare_inputs_dir_only:
  assumes "given (cli_text c) = None" and "given (cli_file c) = None"
    and "given (cli_dir c) = Some d" and "os_isdir sys d"
  shows "prepare_inputs sys (parse_args c) =
           (Inr (fst (load_texts_from_dir sys d)), snd (load_texts_from_dir sys d))"
proof -
  have "dict_update [] (fst (load_texts_from_dir sys d)) = fst (load_texts_from_dir sys d)"
    using dict_update_fresh [of "[]" "fst (load_texts_from_dir sys d)"]
    by (simp add: load_texts_from_dir_keys)
  with assms show ?thesis
    by (simp add: prepare_inputs_def add_text_def add_file_def add_dir_def parse_args_def)
qed

lemma main_finishes:
  assumes "prepare_inputs sys (parse_args c) = (Inr inputs, evs)" and "inputs \<noteq> []"
    and "classifier (map snd inputs) (args_labels (parse_args c)) = Inr raw"
    and "length (as_list raw) = length inputs"
  shows "fst (main sys classifier c) = Finished"
    and "reported (snd (main sys classifier c)) = map fst inputs"
    and "map fst (saved (snd (main sys classifier c))) =
           (case given (cli_output c) of
              None \<Rightarrow> []
            | Some path \<Rightarrow> (case os_write sys path of None \<Rightarrow> map fst inputs | Some e \<Rightarrow> []))"
    and "filter is_log (snd (main sys classifier c)) =
           evs @ filter is_log (save_output sys (parse_args c) inputs (as_list raw))"
proof -
  from prepare_inputs_log [of sys "parse_args c"] assms(1)
  have logs: "list_all is_log evs" by simp
  note run = main_runs [where classifier = classifier, OF assms(1-3)]
  show "fst (main sys classifier c) = Finished" by (simp add: run)
  show "reported (snd (main sys classifier c)) = map fst inputs"
    using log_is_quiet [OF logs] assms(4)
    by (simp add: run report_all_reads save_output_reads)
  show "map fst (saved (snd (main sys classifier c))) =
           (case given (cli_output c) of
              None \<Rightarrow> []
            | Some path \<Rightarrow> (case os_write sys path of None \<Rightarrow> map fst inputs | Some e \<Rightarrow> []))"
    using log_is_quiet [OF logs] assms(4)
    by (simp add: run report_all_reads save_output_reads parse_args_def split: option.splits)
  have "filter is_log evs = evs" using logs by (simp add: list_all_iff)
  then show "filter is_log (snd (main sys classifier c)) =
           evs @ filter is_log (save_output sys (parse_args c) inputs (as_list raw))"
    by (simp add: run report_all_reads)
qed

section \<open>The concrete directory\<close>

lemma demo_discovered:
  "discovered demo_os ''d'' = [''d/a.txt'', ''d/b.TXT'', ''d/sub/e.txt'']"
  by (simp add: discovered_def demo_os_def endswith_def lower_def lower_char_def
      os_path_join_def)

section \<open>Thresholding\<close>

lemma map_of_filter_values:
  "distinct (map fst d) \<Longrightarrow>
   map_of (filter (\<lambda>(k, v). P v) d) k =
     (case map_of d k of None \<Rightarrow> None | Some v \<Rightarrow> if P v then Some v else None)"
proof (induction d)
  case Nil
  then show ?case by simp
next
  case (Cons p d)
  obtain a b where p: "p = (a, b)" by (cases p)
  from Cons.prems p have "a \<notin> fst ` set d" and dd: "distinct (map fst d)" by auto
  then have none: "map_of d a = None" by (simp add: map_of_eq_None_iff)
  show ?case using Cons.IH [OF dd] none by (auto simp: p)
qed

lemma make_result_fields:
  "r_text (make_result cfg t (tx, res)) = tx"
  "scores (make_result cfg t (tx, res)) = dict_of (zip (out_labels res) (out_scores res))"
  "flagged_labels (make_result cfg t (tx, res)) =
     filter (\<lambda>(lbl, sc). t \<le> sc) (dict_of (zip (out_labels res) (out_scores res)))"
  "is_safe (make_result cfg t (tx, res)) =
     (if ENABLE_FAST_DETECT cfg
      then Some (filter (\<lambda>(lbl, sc). t \<le> sc) (dict_of (zip (out_labels res) (out_scores res))) = [])
      else None)"
  by (simp_all add: make_result_def Let_def dict_of_filter dict_of_distinct)

lemma classify_texts_results:
  assumes "fst (classify_texts cfg classifier texts labels t) = Inr rs"
  shows "\<exists>raw. classifier texts labels = Inr raw
          \<and> rs = map (make_result cfg t) (zip texts (as_list raw))"
  using assms by (auto simp: classify_texts_def split: sum.splits)

lemma report_entry_printed:
  "printed (report_entry t st ((src, tx), res)) =
     printed st @
       (if filter (\<lambda>(lbl, sc). t \<le> sc) (dict_of (zip (out_labels res) (out_scores res))) = []
        then [Print_safe src]
        else Print_flagged src #
               map (\<lambda>(lbl, sc). Print_label lbl sc)
                 (filter (\<lambda>(lbl, sc). t \<le> sc)
                    (dict_of (zip (out_labels res) (out_scores res)))))"
  by (simp add: report_entry_def Let_def dict_of_filter dict_of_distinct)

lemma foldl_report_printed:
  "printed (foldl (report_entry t) st xs) =
     printed st @ concat (map (\<lambda>((src, tx), res).
       if filter (\<lambda>(lbl, sc). t \<le> sc) (dict_of (zip (out_labels res) (out_scores res))) = []
       then [Print_safe src]
       else Print_flagged src #
              map (\<lambda>(lbl, sc). Print_label lbl sc)
                (filter (\<lambda>(lbl, sc). t \<le> sc)
                   (dict_of (zip (out_labels res) (out_scores res))))) xs)"
proof (induction xs arbitrary: st)
  case Nil
  then show ?case by simp
next
  case (Cons x xs)
  obtain src tx res where x: "x = ((src, tx), res)" by (cases x) auto
  show ?case by (simp add: Cons.IH x report_entry_printed)
qed

text \<open>
  Claim C1. Whatever the texts, the labels and the threshold (in particular for every
  threshold in [0,1]), each result that \<open>classify_texts\<close> returns has as
  \<open>flagged_labels\<close> exactly the entries of its \<open>scores\<close> whose value is at least the
  threshold: the same labels in the same order with the same values, and as a mapping
  the restriction of \<open>scores\<close> to those labels. With \<open>ENABLE_FAST_DETECT\<close> on, \<open>is_safe\<close>
  is true exactly when that part is empty; with it off, \<open>is_safe\<close> is \<open>None\<close>. The
  command-line tool partitions in the same way: an input is printed as flagged, with
  exactly the labels scoring at least the threshold, or as safe when there is none.
\<close>

theorem flagged_is_threshold_part:
  assumes "fst (classify_texts cfg classifier texts labels threshold) = Inr rs"
    and "r \<in> set rs"
  shows "flagged_labels r = filter (\<lambda>(lbl, sc). threshold \<le> sc) (scores r)
       \<and> map_of (flagged_labels r) =
           (\<lambda>lbl. case map_of (scores r) lbl of
                     None \<Rightarrow> None
                   | Some sc \<Rightarrow> if threshold \<le> sc then Some sc else None)
       \<and> is_safe r = (if ENABLE_FAST_DETECT cfg then Some (flagged_labels r = []) else None)
       \<and> printed (report_all threshold inputs outs) =
           concat (map (\<lambda>((src, tx), res).
             if filter (\<lambda>(lbl, sc). threshold \<le> sc)
                  (dict_of (zip (out_labels res) (out_scores res))) = []
             then [Print_safe src]
             else Print_flagged src #
                    map (\<lambda>(lbl, sc). Print_label lbl sc)
                      (filter (\<lambda>(lbl, sc). threshold \<le> sc)
                         (dict_of (zip (out_labels res) (out_scores res)))))
             (zip inputs outs))"
proof -
  from classify_texts_results [OF assms(1)] assms(2)
  obtain tx res where r: "r = make_result cfg threshold (tx, res)" by auto
  have part: "flagged_labels r = filter (\<lambda>(lbl, sc). threshold \<le> sc) (scores r)"
    by (simp add: r make_result_fields)
  have "distinct (map fst (scores r))"
    by (simp add: r make_result_fields dict_of_distinct)
  then have sub: "map_of (flagged_labels r) =
           (\<lambda>lbl. case map_of (scores r) lbl of
                     None \<Rightarrow> None
                   | Some sc \<Rightarrow> if threshold \<le> sc then Some sc else None)"
    unfolding part by (intro ext map_of_filter_values)
  have safe: "is_safe r = (if ENABLE_FAST_DETECT cfg then Some (flagged_labels r = []) else None)"
    by (simp add: r make_result_fields)
  have cli: "printed (report_all threshold inputs outs) =
           concat (map (\<lambda>((src, tx), res).
             if filter (\<lambda>(lbl, sc). threshold \<le> sc)
                  (dict_of (zip (out_labels res) (out_scores res))) = []
             then [Print_safe src]
             else Print_flagged src #
                    map (\<lambda>(lbl, sc). Print_label lbl sc)
                      (filter (\<lambda>(lbl, sc). threshold \<le> sc)
                         (dict_of (zip (out_labels res) (out_scores res)))))
             (zip inputs outs))"
    by (simp add: report_all_def foldl_report_printed)
  from part sub safe cli show ?thesis by blast
qed

lemma demo_classify:
  "fst (classify_texts shipped_config demo_classifier [''you fool''] DEFAULT_LABELS (1 / 2))
     = Inr [demo_result]"
  by (simp add: classify_texts_def demo_classifier_def make_result_def dict_of_def
      dict_update_def shipped_config_def demo_result_def)

theorem flagged_is_threshold_part_witness:
  "fst (classify_texts shipped_config demo_classifier [''you fool''] DEFAULT_LABELS (1 / 2))
     = Inr [demo_result]
   \<and> flagged_labels demo_result = [(''insult'', 9 / 10)]
   \<and> flagged_labels demo_result = filter (\<lambda>(lbl, sc). 1 / 2 \<le> sc) (scores demo_result)
   \<and> is_safe demo_result = Some False"
proof -
  have mem: "demo_result \<in> set [demo_result]" by simp
  have safe: "is_safe demo_result = Some False"
    and high: "flagged_labels demo_result = [(''insult'', 9 / 10)]"
    by (simp_all add: demo_result_def)
  from flagged_is_threshold_part [OF demo_classify mem, of "[]" "[]"] demo_classify safe high
  show ?thesis by simp
qed

section \<open>Defaults\<close>

lemma or_default_labels [simp]: "or_default (Some DEFAULT_LABELS) DEFAULT_LABELS = DEFAULT_LABELS"
  by (simp add: DEFAULT_LABELS_def)





section \<open>Requests that are rejected\<close>

text \<open>
  Claim C3. GET /detect with neither \<open>text\<close> nor \<open>texts\<close> is answered with status 422,
  whatever the other parameters. When \<open>ENABLE_TEXT_PARAM\<close> is off, the handler answers a
  request that carries \<open>text\<close> with status 400; at the level of the query string the
  status is 400 unless the threshold is outside [0,1], which the framework has already
  refused with 422. In each case the trace is empty: the classifier is not called.
\<close>

theorem get_detect_rejections:
  assumes "q_text q = None" and "q_texts q = None"
    and "\<not> ENABLE_TEXT_PARAM cfg'" and "q_text q' = Some t"
  shows "detect_get cfg classifier None None labels threshold =
           (Inl (HTTPException 422 ''Provide either 'texts' or 'text' query parameter''), [])
       \<and> response_status (fst (get_detect cfg classifier q)) = 422
       \<and> snd (get_detect cfg classifier q) = []
       \<and> detect_get cfg' classifier texts (Some t) labels threshold =
           (Inl (HTTPException 400 ''Single-text query param 'text' not supported''), [])
       \<and> response_status (fst (detect_get cfg' classifier texts (Some t) labels threshold)) = 400
       \<and> response_status (fst (get_detect cfg' classifier q')) =
           (case q_threshold q' of
              None \<Rightarrow> 400
            | Some th \<Rightarrow> if in_unit_interval th then 400 else 422)
       \<and> snd (get_detect cfg' classifier q') = []"
proof -
  have neither: "detect_get cfg classifier None None labels threshold =
      (Inl (HTTPException 422 ''Provide either 'texts' or 'text' query parameter''), [])"
    by (simp add: detect_get_def)
  have neither_q: "response_status (fst (get_detect cfg classifier q)) = 422
      \<and> snd (get_detect cfg classifier q) = []"
    using assms(1,2) by (simp add: get_detect_def detect_get_def split: option.splits)
  have off: "detect_get cfg' classifier texts (Some t) labels threshold =
      (Inl (HTTPException 400 ''Single-text query param 'text' not supported''), [])"
    using assms(3) by (simp add: detect_get_def)
  have off_q: "response_status (fst (get_detect cfg' classifier q')) =
           (case q_threshold q' of
              None \<Rightarrow> 400
            | Some th \<Rightarrow> if in_unit_interval th then 400 else 422)
      \<and> snd (get_detect cfg' classifier q') = []"
    using assms(3,4) by (simp add: get_detect_def detect_get_def split: option.splits)
  from neither neither_q off off_q show ?thesis by simp
qed

theorem get_detect_rejections_witness:
  "get_detect shipped_config demo_classifier empty_query =
     (Inl (HTTPException 422 ''Provide either 'texts' or 'text' query parameter''), [])
   \<and> response_status (fst (get_detect shipped_config demo_classifier empty_query)) = 422
   \<and> get_detect no_text_param demo_classifier demo_query =
     (Inl (HTTPException 400 ''Single-text query param 'text' not supported''), [])
   \<and> response_status (fst (get_detect no_text_param demo_classifier demo_query)) = 400
   \<and> snd (get_detect no_text_param demo_classifier demo_query) = []"
proof -
  have q: "q_text empty_query = None" "q_texts empty_query = None"
    by (simp_all add: empty_query_def)
  have off: "\<not> ENABLE_TEXT_PARAM no_text_param" by (simp add: no_text_param_def)
  have q': "q_text demo_query = Some ''you fool''" by (simp add: demo_query_def)
  have e1: "get_detect shipped_config demo_classifier empty_query =
      (Inl (HTTPException 422 ''Provide either 'texts' or 'text' query parameter''), [])"
    by (simp add: get_detect_def detect_get_def empty_query_def)
  have e2: "get_detect no_text_param demo_classifier demo_query =
      (Inl (HTTPException 400 ''Single-text query param 'text' not supported''), [])"
    by (simp add: get_detect_def detect_get_def demo_query_def no_text_param_def)
  from get_detect_rejections [OF q off q', of shipped_config demo_classifier] e1 e2
  show ?thesis by simp
qed

text \<open>
  Claim C4. \<open>detect_file\<close> answers an upload whose content type is not \<open>text/plain\<close>
  with \<open>HTTPException(400)\<close> before it reads the file, and the trace is empty: the
  classifier is not called. At the level of the form the classifier is not called
  either, and the status is 400 unless the threshold is outside [0,1], which the
  framework has already refused with 422.
\<close>

theorem detect_file_rejects_other_types:
  assumes "content_type file \<noteq> Some ''text/plain''" and "f_file f = Some file"
  shows "detect_file cfg classifier file labels threshold =
           (Inl (HTTPException 400 ''Only text/plain supported.''), [])
       \<and> response_status (fst (detect_file cfg classifier file labels threshold)) = 400
       \<and> snd (detect_file cfg classifier file labels threshold) = []
       \<and> response_status (fst (post_detect_file cfg classifier f)) =
           (case f_threshold f of
              None \<Rightarrow> 400
            | Some th \<Rightarrow> if in_unit_interval th then 400 else 422)
       \<and> snd (post_detect_file cfg classifier f) = []"
proof -
  have handler: "detect_file cfg classifier file labels threshold =
      (Inl (HTTPException 400 ''Only text/plain supported.''), [])" for labels threshold
    using assms(1) by (simp add: detect_file_def)
  have whole: "response_status (fst (post_detect_file cfg classifier f)) =
           (case f_threshold f of
              None \<Rightarrow> 400
            | Some th \<Rightarrow> if in_unit_interval th then 400 else 422)
       \<and> snd (post_detect_file cfg classifier f) = []"
    using assms(2) by (simp add: post_detect_file_def handler split: option.splits)
  from handler whole show ?thesis by simp
qed

theorem detect_file_rejects_other_types_witness:
  "detect_file shipped_config demo_classifier demo_image DEFAULT_LABELS (1 / 2) =
     (Inl (HTTPException 400 ''Only text/plain supported.''), [])
   \<and> response_status (fst (post_detect_file shipped_config demo_classifier image_form)) = 400
   \<and> snd (post_detect_file shipped_config demo_classifier image_form) = []"
proof -
  have ct: "content_type demo_image \<noteq> Some ''text/plain''" by (simp add: demo_image_def)
  have f: "f_file image_form = Some demo_image" by (simp add: image_form_def)
  have th: "f_threshold image_form = None" by (simp add: image_form_def)
  from detect_file_rejects_other_types [OF ct f, of shipped_config demo_classifier] th
  show ?thesis by simp
qed

section \<open>The content of a file\<close>

lemma line_break_before_newline:
  "line_break (c # l) = 0 \<Longrightarrow> line_break (c # l @ CHR 0x0A # rest) = 0"
proof (cases l)
  case Nil
  then show "line_break (c # l) = 0 \<Longrightarrow> ?thesis"
    by (simp add: line_break_def split: if_splits)
next
  case (Cons a l')
  then show "line_break (c # l) = 0 \<Longrightarrow> ?thesis"
    by (cases l') (simp_all add: line_break_def split: if_splits)
qed

lemma line_break_newline: "line_break (CHR 0x0A # rest) = 1"
  by (simp add: line_break_def)

lemma splitlines_from_line:
  "\<not> has_break l \<Longrightarrow>
   splitlines_from cur (l @ CHR 0x0A # rest) = (cur @ l) # splitlines_from [] rest"
proof (induction l arbitrary: cur)
  case Nil
  then show ?case by (simp add: line_break_newline)
next
  case (Cons c l)
  from Cons.prems have "line_break (c # l) = 0" and rest: "\<not> has_break l" by simp_all
  from line_break_before_newline [OF this(1)] Cons.IH [OF rest]
  show ?case by simp
qed

lemma splitlines_from_end:
  "\<not> has_break l \<Longrightarrow> splitlines_from cur l = (if cur @ l = [] then [] else [cur @ l])"
  by (induction l arbitrary: cur) simp_all

lemma splitlines_lines:
  "\<forall>l\<in>set ls. \<not> has_break l \<Longrightarrow> \<not> has_break last_line \<Longrightarrow>
   splitlines_from [] (concat (map (\<lambda>l. l @ [CHR 0x0A]) ls) @ last_line) =
     ls @ (if last_line = [] then [] else [last_line])"
proof (induction ls)
  case Nil
  then show ?case by (simp add: splitlines_from_end)
next
  case (Cons l ls)
  from Cons.prems have l: "\<not> has_break l" by simp
  from Cons have "splitlines_from [] (concat (map (\<lambda>l. l @ [CHR 0x0A]) ls) @ last_line) =
     ls @ (if last_line = [] then [] else [last_line])" by simp
  with splitlines_from_line [OF l, of "[]" "concat (map (\<lambda>l. l @ [CHR 0x0A]) ls) @ last_line"]
  show ?case by simp
qed

lemma main_trace_start:
  assumes "prepare_inputs sys (parse_args c) = (Inr inputs, evs)" and "inputs \<noteq> []"
  shows "take (length evs + 2) (snd (main sys classifier c)) =
           evs @ [Load_model, Classifier_call (map snd inputs) (args_labels (parse_args c))]"
proof (cases "classifier (map snd inputs) (args_labels (parse_args c))")
  case (Inl e)
  from main_fails [where classifier = classifier, OF assms Inl] show ?thesis by simp
next
  case (Inr raw)
  from main_runs [where classifier = classifier, OF assms Inr] show ?thesis by simp
qed

text \<open>
  Claim C5, as amended. An uploaded file of type \<open>text/plain\<close> whose decoded content
  holds a \<open>\n\<close> character is split by \<open>splitlines\<close>, and the lines are the texts: for
  lines free of terminators, each ended by \<open>\n\<close> (the last one possibly unended), the
  texts are those lines. A content without \<open>\n\<close> is one text, the whole content. The
  command-line tool never splits: the file given by \<open>--file\<close> is the single entry
  \<open>(path, content)\<close> of \<open>inputs\<close>, and the classifier is called with the whole content
  as one text.
\<close>

theorem file_content_to_texts:
  assumes "content_type file = Some ''text/plain''" and "decoded file = Inr content"
    and "\<forall>l\<in>set ls. \<not> has_break l" and "\<not> has_break last_line"
    and "given (cli_text c) = None" and "given (cli_dir c) = None"
    and "given (cli_file c) = Some path" and "os_isfile sys path"
    and "os_read sys path = Inr content'"
  shows "detect_file cfg classifier file labels threshold =
           respond (classify_texts cfg classifier
             (if CHR 0x0A \<in> set content then splitlines content else [content])
             labels threshold)
       \<and> splitlines (concat (map (\<lambda>l. l @ [CHR 0x0A]) ls) @ last_line) =
           ls @ (if last_line = [] then [] else [last_line])
       \<and> prepare_inputs sys (parse_args c) = (Inr [(path, content')], [])
       \<and> take 2 (snd (main sys classifier c)) =
           [Load_model, Classifier_call [content'] (args_labels (parse_args c))]"
proof -
  have api: "detect_file cfg classifier file labels threshold =
           respond (classify_texts cfg classifier
             (if CHR 0x0A \<in> set content then splitlines content else [content])
             labels threshold)"
    using assms(1,2) by (simp add: detect_file_def Let_def)
  have lines: "splitlines (concat (map (\<lambda>l. l @ [CHR 0x0A]) ls) @ last_line) =
           ls @ (if last_line = [] then [] else [last_line])"
    unfolding splitlines_def by (rule splitlines_lines [OF assms(3,4)])
  have prep: "prepare_inputs sys (parse_args c) = (Inr [(path, content')], [])"
    using assms(5-9)
    by (simp add: prepare_inputs_def add_text_def add_file_def add_dir_def parse_args_def)
  have nonempty: "[(path, content')] \<noteq> []" by simp
  from main_trace_start [OF prep nonempty, of classifier]
  have "take 2 (snd (main sys classifier c)) =
      [Load_model, Classifier_call [content'] (args_labels (parse_args c))]"
    by (simp add: numeral_2_eq_2)
  with api lines prep show ?thesis by simp
qed

theorem file_content_to_texts_witness:
  "detect_file shipped_config demo_classifier demo_upload DEFAULT_LABELS (1 / 2) =
     respond (classify_texts shipped_config demo_classifier [''you fool'', ''good day'']
       DEFAULT_LABELS (1 / 2))
   \<and> splitlines (''you fool'' @ [CHR 0x0A] @ ''good day'') = [''you fool'', ''good day'']
   \<and> prepare_inputs demo_os (parse_args file_option) =
     (Inr [(''f.txt'', ''you fool'' @ [CHR 0x0A] @ ''good day'')], [])
   \<and> take 2 (snd (main demo_os demo_classifier file_option)) =
     [Load_model, Classifier_call [''you fool'' @ [CHR 0x0A] @ ''good day''] DEFAULT_LABELS]"
proof -
  have up: "content_type demo_upload = Some ''text/plain''"
    "decoded demo_upload = Inr (''you fool'' @ [CHR 0x0A] @ ''good day'' @ [CHR 0x0A])"
    by (simp_all add: demo_upload_def)
  have plain: "\<forall>l\<in>set [''you fool'']. \<not> has_break l" "\<not> has_break ''good day''"
    by (simp_all add: line_break_def)
  have opts: "given (cli_text file_option) = None" "given (cli_dir file_option) = None"
    "given (cli_file file_option) = Some ''f.txt''" "os_isfile demo_os ''f.txt''"
    "os_read demo_os ''f.txt'' = Inr (''you fool'' @ [CHR 0x0A] @ ''good day'')"
    by (simp_all add: file_option_def no_options_def demo_os_def)
  have split: "splitlines (''you fool'' @ [CHR 0x0A] @ ''good day'' @ [CHR 0x0A]) =
      [''you fool'', ''good day'']"
    by (simp add: splitlines_def line_break_def)
  have labels: "args_labels (parse_args file_option) = DEFAULT_LABELS"
    by (simp add: parse_args_def file_option_def no_options_def)
  from file_content_to_texts [where cfg = shipped_config and classifier = demo_classifier
      and labels = DEFAULT_LABELS and threshold = "1 / 2", OF up plain opts] split labels
  show ?thesis by simp
qed

text \<open>
  The claim as stated fails. The file \<open>f.txt\<close> has two lines, and the tool run with
  \<open>--file f.txt\<close> classifies one text, the whole content, and prints one record. An
  upload whose content is the one line \<open>good day\<close> with its final \<open>\n\<close> is classified as
  the text \<open>good day\<close>, not as the whole content; and an upload of two lines separated
  by \<open>\r\<close> is classified as one text.
\<close>

theorem file_lines_counterexample:
  "os_read demo_os ''f.txt'' = Inr (''you fool'' @ [CHR 0x0A] @ ''good day'')
   \<and> splitlines (''you fool'' @ [CHR 0x0A] @ ''good day'') = [''you fool'', ''good day'']
   \<and> main demo_os demo_classifier file_option =
       (Finished,
        [Load_model,
         Classifier_call [''you fool'' @ [CHR 0x0A] @ ''good day''] DEFAULT_LABELS,
         Print_flagged ''f.txt'', Print_label ''insult'' (9 / 10)])
   \<and> snd (detect_file shipped_config demo_classifier
          \<lparr> content_type = Some ''text/plain'', decoded = Inr (''good day'' @ [CHR 0x0A]) \<rparr>
          DEFAULT_LABELS (1 / 2)) =
       [Classifier_call [''good day''] DEFAULT_LABELS]
   \<and> splitlines (''you fool'' @ [CHR 0x0D] @ ''good day'') = [''you fool'', ''good day'']
   \<and> snd (detect_file shipped_config demo_classifier
          \<lparr> content_type = Some ''text/plain'',
            decoded = Inr (''you fool'' @ [CHR 0x0D] @ ''good day'') \<rparr>
          DEFAULT_LABELS (1 / 2)) =
       [Classifier_call [''you fool'' @ [CHR 0x0D] @ ''good day''] DEFAULT_LABELS]"
proof -
  have a: "os_read demo_os ''f.txt'' = Inr (''you fool'' @ [CHR 0x0A] @ ''good day'')"
    by (simp add: demo_os_def)
  have b: "splitlines (''you fool'' @ [CHR 0x0A] @ ''good day'') = [''you fool'', ''good day'']"
    by (simp add: splitlines_def line_break_def)
  have c: "main demo_os demo_classifier file_option =
       (Finished,
        [Load_model,
         Classifier_call [''you fool'' @ [CHR 0x0A] @ ''good day''] DEFAULT_LABELS,
         Print_flagged ''f.txt'', Print_label ''insult'' (9 / 10)])"
    by (simp add: main_def parse_args_def file_option_def no_options_def prepare_inputs_def
        add_text_def add_file_def add_dir_def demo_os_def detect_bad_content_def
        demo_classifier_def report_all_def report_entry_def save_output_def dict_of_def
        dict_update_def)
  have d: "snd (detect_file shipped_config demo_classifier
          \<lparr> content_type = Some ''text/plain'', decoded = Inr (''good day'' @ [CHR 0x0A]) \<rparr>
          DEFAULT_LABELS (1 / 2)) =
       [Classifier_call [''good day''] DEFAULT_LABELS]"
    by (simp add: detect_file_def classify_texts_def demo_classifier_def splitlines_def
        line_break_def)
  have e: "splitlines (''you fool'' @ [CHR 0x0D] @ ''good day'') = [''you fool'', ''good day'']"
    by (simp add: splitlines_def line_break_def)
  have f: "snd (detect_file shipped_config demo_classifier
          \<lparr> content_type = Some ''text/plain'',
            decoded = Inr (''you fool'' @ [CHR 0x0D] @ ''good day'') \<rparr>
          DEFAULT_LABELS (1 / 2)) =
       [Classifier_call [''you fool'' @ [CHR 0x0D] @ ''good day''] DEFAULT_LABELS]"
    by (simp add: detect_file_def classify_texts_def demo_classifier_def)
  from a b c d e f show ?thesis by blast
qed

section \<open>No input\<close>

lemma prepare_inputs_nothing_given:
  "given (cli_text c) = None \<Longrightarrow> given (cli_file c) = None \<Longrightarrow> given (cli_dir c) = None \<Longrightarrow>
   prepare_inputs sys (parse_args c) = (Inr [], [])"
  by (simp add: prepare_inputs_def add_text_def add_file_def add_dir_def parse_args_def)

text \<open>
  Claim C6. A run whose options supply no input, so that the dict \<open>inputs\<close> is empty
  once \<open>--text\<close>, \<open>--file\<close> and \<open>--dir\<close> have been looked at, ends in the usage error of
  \<open>p.error\<close>, and its trace has no event that loads or calls the classifier. This is so
  in particular when none of the three options is given (or each is the empty string),
  where the trace is empty.
\<close>

theorem no_input_is_usage_error:
  assumes "prepare_inputs sys (parse_args c) = (Inr [], evs)"
    and "given (cli_text c') = None" and "given (cli_file c') = None"
    and "given (cli_dir c') = None"
  shows "main sys classifier c =
           (Usage_error ''Please specify --text, --file, or --dir with at least one input'',
            evs)
       \<and> filter uses_classifier (snd (main sys classifier c)) = []
       \<and> main sys' classifier c' =
           (Usage_error ''Please specify --text, --file, or --dir with at least one input'',
            [])"
proof -
  from prepare_inputs_log [of sys "parse_args c"] assms(1)
  have "list_all is_log evs" by simp
  then have "filter uses_classifier evs = []" by (simp add: log_is_quiet)
  with main_usage [OF assms(1), of classifier]
    main_usage [OF prepare_inputs_nothing_given [OF assms(2-4)], of sys' classifier]
  show ?thesis by simp
qed

theorem no_input_is_usage_error_witness:
  "main (demo_os \<lparr> os_isdir := \<lambda>p. True \<rparr>) demo_classifier
        (no_options \<lparr> cli_dir := Some ''d/sub/empty'' \<rparr>) =
     (Usage_error ''Please specify --text, --file, or --dir with at least one input'', [])
   \<and> main demo_os demo_classifier no_options =
     (Usage_error ''Please specify --text, --file, or --dir with at least one input'', [])
   \<and> filter uses_classifier (snd (main demo_os demo_classifier no_options)) = []"
proof -
  have empty_dir: "prepare_inputs (demo_os \<lparr> os_isdir := \<lambda>p. True \<rparr>)
      (parse_args (no_options \<lparr> cli_dir := Some ''d/sub/empty'' \<rparr>)) = (Inr [], [])"
    by (simp add: prepare_inputs_def add_text_def add_file_def add_dir_def parse_args_def
        no_options_def demo_os_def load_texts_from_dir_def dict_update_def)
  have none: "given (cli_text no_options) = None" "given (cli_file no_options) = None"
    "given (cli_dir no_options) = None"
    by (simp_all add: no_options_def)
  from no_input_is_usage_error [OF empty_dir none, of demo_classifier demo_os]
  show ?thesis by simp
qed

section \<open>A file that cannot be read\<close>

lemma filter_the_one:
  "distinct xs \<Longrightarrow> x \<in> set xs \<Longrightarrow> filter (\<lambda>p. p = x) xs = [x]"
  by (induction xs) (auto simp: filter_empty_conv)

lemma one_unreadable:
  assumes "distinct ds" and "bad \<in> set ds" and "os_read sys bad = Inl e"
    and "\<forall>p\<in>set ds. p \<noteq> bad \<longrightarrow> os_read sys p = Inr (content p)"
  shows "map (\<lambda>p. (p, projr (os_read sys p))) (filter (readable sys) ds) =
           map (\<lambda>p. (p, content p)) (filter (\<lambda>p. p \<noteq> bad) ds)"
    and "map (\<lambda>p. unreadable p (projl (os_read sys p))) (filter (\<lambda>p. \<not> readable sys p) ds) =
           [unreadable bad e]"
    and "length (filter (\<lambda>p. p \<noteq> bad) ds) = length ds - 1"
proof -
  have iff: "readable sys p \<longleftrightarrow> p \<noteq> bad" if "p \<in> set ds" for p
    using that assms(3,4) by (auto simp: readable_def)
  then have good: "filter (readable sys) ds = filter (\<lambda>p. p \<noteq> bad) ds"
    by (auto intro: filter_cong)
  from iff have "filter (\<lambda>p. \<not> readable sys p) ds = filter (\<lambda>p. p = bad) ds"
    by (auto intro: filter_cong)
  then have only: "filter (\<lambda>p. \<not> readable sys p) ds = [bad]"
    by (simp add: filter_the_one [OF assms(1,2)])
  show "map (\<lambda>p. (p, projr (os_read sys p))) (filter (readable sys) ds) =
           map (\<lambda>p. (p, content p)) (filter (\<lambda>p. p \<noteq> bad) ds)"
    unfolding good using assms(4) by (auto intro: map_cong)
  show "map (\<lambda>p. unreadable p (projl (os_read sys p))) (filter (\<lambda>p. \<not> readable sys p) ds) =
           [unreadable bad e]"
    by (simp add: only assms(3))
  from sum_length_filter_compl [of "\<lambda>p. p = bad" ds]
  show "length (filter (\<lambda>p. p \<noteq> bad) ds) = length ds - 1"
    by (simp add: filter_the_one [OF assms(1,2)])
qed

text \<open>
  Claim C7. Let the scan of a directory come to N \<open>.txt\<close> files (N distinct paths), of
  which exactly one, \<open>bad\<close>, cannot be read. Then \<open>load_texts_from_dir\<close> does not fail:
  it returns the other N - 1 files, each with its content, in the order of discovery,
  and logs the one warning for \<open>bad\<close>. A run with \<open>--dir\<close> alone goes on with these
  inputs: when the classifier answers for each of them, a record is printed for each of
  the N - 1 files, in that order, and the run finishes (if \<open>bad\<close> was the only file,
  there is no input left and the run ends in the usage error).
\<close>

theorem unreadable_file_is_skipped:
  assumes "distinct (discovered sys d)"
    and "bad \<in> set (discovered sys d)" and "os_read sys bad = Inl e"
    and "\<forall>p\<in>set (discovered sys d). p \<noteq> bad \<longrightarrow> os_read sys p = Inr (content p)"
    and "given (cli_text c) = None" and "given (cli_file c) = None"
    and "given (cli_dir c) = Some d" and "os_isdir sys d"
    and "classifier (map content (filter (\<lambda>p. p \<noteq> bad) (discovered sys d)))
           (args_labels (parse_args c)) = Inr raw"
    and "length (as_list raw) = length (discovered sys d) - 1"
  shows "fst (load_texts_from_dir sys d) =
           map (\<lambda>p. (p, content p)) (filter (\<lambda>p. p \<noteq> bad) (discovered sys d))
       \<and> length (fst (load_texts_from_dir sys d)) = length (discovered sys d) - 1
       \<and> snd (load_texts_from_dir sys d) =
           [Log_warning (''Could not read '' @ bad @ '': '' @ e)]
       \<and> prepare_inputs sys (parse_args c) =
           (Inr (map (\<lambda>p. (p, content p)) (filter (\<lambda>p. p \<noteq> bad) (discovered sys d))),
            [Log_warning (''Could not read '' @ bad @ '': '' @ e)])
       \<and> reported (snd (main sys classifier c)) = filter (\<lambda>p. p \<noteq> bad) (discovered sys d)
       \<and> fst (main sys classifier c) =
           (if discovered sys d = [bad]
            then Usage_error ''Please specify --text, --file, or --dir with at least one input''
            else Finished)"
proof -
  let ?others = "filter (\<lambda>p. p \<noteq> bad) (discovered sys d)"
  let ?inputs = "map (\<lambda>p. (p, content p)) ?others"
  note one = one_unreadable [OF assms(1-4)]
  have load: "load_texts_from_dir sys d = (?inputs, [unreadable bad e])"
    by (simp add: load_texts_from_dir_distinct [OF assms(1)] one)
  have prep: "prepare_inputs sys (parse_args c) = (Inr ?inputs, [unreadable bad e])"
    by (simp add: prepare_inputs_dir_only [OF assms(5-8)] load)
  have len: "length ?inputs = length (discovered sys d) - 1"
    by (simp add: one)
  have vals: "map snd ?inputs = map content ?others" and srcs: "map fst ?inputs = ?others"
    by (simp_all add: comp_def)
  have "?others = [] \<longleftrightarrow> discovered sys d = [bad]"
  proof
    assume "?others = []"
    with one(3) have "length (discovered sys d) \<le> 1" by simp
    with assms(2) show "discovered sys d = [bad]"
      by (cases "discovered sys d") auto
  qed simp
  then have empty: "?inputs = [] \<longleftrightarrow> discovered sys d = [bad]" by simp
  have run: "reported (snd (main sys classifier c)) = ?others
      \<and> fst (main sys classifier c) =
           (if discovered sys d = [bad]
            then Usage_error ''Please specify --text, --file, or --dir with at least one input''
            else Finished)"
  proof (cases "discovered sys d = [bad]")
    case True
    with prep have "prepare_inputs sys (parse_args c) = (Inr [], [unreadable bad e])"
      by simp
    from main_usage [OF this, of classifier] True show ?thesis
      by (simp add: unreadable_def)
  next
    case False
    with empty have nonempty: "?inputs \<noteq> []" by simp
    have call: "classifier (map snd ?inputs) (args_labels (parse_args c)) = Inr raw"
      unfolding vals by (rule assms(9))
    have same: "length (as_list raw) = length ?inputs"
      using assms(10) len by simp
    from main_finishes(1,2) [where classifier = classifier, OF prep nonempty call same] False
    show ?thesis by (simp add: comp_def)
  qed
  from load prep len run show ?thesis by (simp add: unreadable_def)
qed

theorem unreadable_file_is_skipped_witness:
  "discovered demo_os ''d'' = [''d/a.txt'', ''d/b.TXT'', ''d/sub/e.txt'']
   \<and> os_read demo_os ''d/b.TXT'' = Inl ''Permission denied''
   \<and> load_texts_from_dir demo_os ''d'' =
       ([(''d/a.txt'', ''hello''), (''d/sub/e.txt'', ''hello'')],
        [Log_warning ''Could not read d/b.TXT: Permission denied''])
   \<and> reported (snd (main demo_os demo_classifier dir_option)) = [''d/a.txt'', ''d/sub/e.txt'']
   \<and> fst (main demo_os demo_classifier dir_option) = Finished"
proof -
  note disc = demo_discovered
  have d: "distinct (discovered demo_os ''d'')" by (simp add: disc)
  have bad: "''d/b.TXT'' \<in> set (discovered demo_os ''d'')" by (simp add: disc)
  have denied: "os_read demo_os ''d/b.TXT'' = Inl ''Permission denied''"
    by (simp add: demo_os_def)
  have others: "\<forall>p\<in>set (discovered demo_os ''d'').
      p \<noteq> ''d/b.TXT'' \<longrightarrow> os_read demo_os p = Inr ((\<lambda>p. ''hello'') p)"
    unfolding disc by (simp add: demo_os_def)
  have opts: "given (cli_text dir_option) = None" "given (cli_file dir_option) = None"
    "given (cli_dir dir_option) = Some ''d''" "os_isdir demo_os ''d''"
    by (simp_all add: dir_option_def no_options_def demo_os_def)
  have answer: "demo_classifier
      (map (\<lambda>p. ''hello'') (filter (\<lambda>p. p \<noteq> ''d/b.TXT'') (discovered demo_os ''d'')))
      (args_labels (parse_args dir_option)) =
      Inr (Many [\<lparr> out_labels = [''insult'', ''profanity''], out_scores = [9 / 10, 1 / 10] \<rparr>,
                 \<lparr> out_labels = [''insult'', ''profanity''], out_scores = [9 / 10, 1 / 10] \<rparr>])"
    unfolding disc by (simp add: demo_classifier_def)
  have len: "length (as_list (Many
        [\<lparr> out_labels = [''insult'', ''profanity''], out_scores = [9 / 10, 1 / 10] \<rparr>,
         \<lparr> out_labels = [''insult'', ''profanity''], out_scores = [9 / 10, 1 / 10] \<rparr>]))
      = length (discovered demo_os ''d'') - 1"
    by (simp add: disc)
  from unreadable_file_is_skipped [where content = "\<lambda>p. ''hello''" and classifier = demo_classifier,
      OF d bad denied others opts answer len] denied
  show ?thesis by (simp add: disc prod_eq_iff)
qed

section \<open>One record per text, in order\<close>

lemma result_texts:
  "length outs = length texts \<Longrightarrow>
   map r_text (map (make_result cfg t) (zip texts outs)) = texts
   \<and> map scores (map (make_result cfg t) (zip texts outs)) =
       map (\<lambda>res. dict_of (zip (out_labels res) (out_scores res))) outs"
  by (induction outs texts rule: list_induct2) (simp_all add: make_result_fields)

text \<open>
  Claim C8. When the classifier answers with one output per text, \<open>classify_texts\<close>
  returns one result per input text, in the order of the texts, the i-th result built
  from the i-th output. The command-line tool prints one record per entry of \<open>inputs\<close>,
  in the order of the dict, and the records of the JSON file (when one is written)
  follow the same order; with \<open>--dir\<close> alone that order is the order in which the
  readable \<open>.txt\<close> files were discovered. (The batch of the tool is the dict: a path that
  two options reach is one entry.)
\<close>

theorem one_result_per_text_in_order:
  assumes "classifier texts labels = Inr raw" and "length (as_list raw) = length texts"
    and "prepare_inputs sys (parse_args c) = (Inr inputs, evs)" and "inputs \<noteq> []"
    and "classifier' (map snd inputs) (args_labels (parse_args c)) = Inr raw'"
    and "length (as_list raw') = length inputs"
  shows "map_sum id (map r_text) (fst (classify_texts cfg classifier texts labels threshold))
           = Inr texts
       \<and> map_sum id length (fst (classify_texts cfg classifier texts labels threshold))
           = Inr (length texts)
       \<and> map_sum id (map scores) (fst (classify_texts cfg classifier texts labels threshold))
           = Inr (map (\<lambda>res. dict_of (zip (out_labels res) (out_scores res))) (as_list raw))
       \<and> fst (main sys classifier' c) = Finished
       \<and> reported (snd (main sys classifier' c)) = map fst inputs
       \<and> map fst (saved (snd (main sys classifier' c))) =
           (case given (cli_output c) of
              None \<Rightarrow> []
            | Some path \<Rightarrow> (case os_write sys path of None \<Rightarrow> map fst inputs | Some e \<Rightarrow> []))
       \<and> (given (cli_text c) = None \<and> given (cli_file c) = None \<and> given (cli_dir c) = Some d
            \<and> os_isdir sys d \<and> distinct (discovered sys d)
          \<longrightarrow> map fst inputs = filter (readable sys) (discovered sys d))"
proof -
  have api: "fst (classify_texts cfg classifier texts labels threshold) =
      Inr (map (make_result cfg threshold) (zip texts (as_list raw)))"
    using assms(1) by (simp add: classify_texts_def)
  note texts = result_texts [OF assms(2), of cfg threshold]
  have len: "length (map (make_result cfg threshold) (zip texts (as_list raw))) = length texts"
    using assms(2) by simp
  note cli = main_finishes(1-3) [where classifier = classifier', OF assms(3-6)]
  have dir: "map fst inputs = filter (readable sys) (discovered sys d)"
    if "given (cli_text c) = None" and "given (cli_file c) = None"
      and "given (cli_dir c) = Some d" and "os_isdir sys d" and "distinct (discovered sys d)"
    using prepare_inputs_dir_only [OF that(1-4)] assms(3)
    by (simp add: load_texts_from_dir_distinct [OF that(5)] comp_def)
  from api texts len cli dir show ?thesis by simp
qed

theorem one_result_per_text_in_order_witness:
  "map_sum id (map r_text)
     (fst (classify_texts shipped_config demo_classifier [''one'', ''two''] DEFAULT_LABELS (1 / 2)))
     = Inr [''one'', ''two'']
   \<and> discovered demo_os ''d'' = [''d/a.txt'', ''d/b.TXT'', ''d/sub/e.txt'']
   \<and> filter (readable demo_os) (discovered demo_os ''d'') = [''d/a.txt'', ''d/sub/e.txt'']
   \<and> fst (main demo_os demo_classifier dir_option) = Finished
   \<and> reported (snd (main demo_os demo_classifier dir_option)) = [''d/a.txt'', ''d/sub/e.txt'']"
proof -
  note disc = demo_discovered
  let ?out = "\<lparr> out_labels = [''insult'', ''profanity''], out_scores = [9 / 10, 1 / 10] \<rparr>"
  have api: "demo_classifier [''one'', ''two''] DEFAULT_LABELS = Inr (Many [?out, ?out])"
    by (simp add: demo_classifier_def)
  have api_len: "length (as_list (Many [?out, ?out])) = length [''one'', ''two'']"
    by simp
  have opts: "given (cli_text dir_option) = None" "given (cli_file dir_option) = None"
    "given (cli_dir dir_option) = Some ''d''" "os_isdir demo_os ''d''"
    by (simp_all add: dir_option_def no_options_def demo_os_def)
  have d: "distinct (discovered demo_os ''d'')" by (simp add: disc)
  have good: "filter (readable demo_os) (discovered demo_os ''d'') = [''d/a.txt'', ''d/sub/e.txt'']"
    unfolding disc by (simp add: readable_def demo_os_def)
  have load: "load_texts_from_dir demo_os ''d'' =
      ([(''d/a.txt'', ''hello''), (''d/sub/e.txt'', ''hello'')],
       [Log_warning ''Could not read d/b.TXT: Permission denied''])"
    unfolding load_texts_from_dir_distinct [OF d] disc
    by (simp add: readable_def demo_os_def unreadable_def)
  have prep: "prepare_inputs demo_os (parse_args dir_option) =
      (Inr [(''d/a.txt'', ''hello''), (''d/sub/e.txt'', ''hello'')],
       [Log_warning ''Could not read d/b.TXT: Permission denied''])"
    by (simp add: prepare_inputs_dir_only [OF opts] load)
  have nonempty: "[(''d/a.txt'', ''hello''), (''d/sub/e.txt'', ''hello'')] \<noteq> []" by simp
  have cli: "demo_classifier (map snd [(''d/a.txt'', ''hello''), (''d/sub/e.txt'', ''hello'')])
      (args_labels (parse_args dir_option)) = Inr (Many [?out, ?out])"
    by (simp add: demo_classifier_def)
  have cli_len: "length (as_list (Many [?out, ?out])) =
      length [(''d/a.txt'', ''hello''), (''d/sub/e.txt'', ''hello'')]"
    by simp
  from one_result_per_text_in_order [where classifier = demo_classifier
      and classifier' = demo_classifier and d = "''d''" and cfg = shipped_config
      and threshold = "1 / 2", OF api api_len prep nonempty cli cli_len]
    opts d good disc
  show ?thesis by simp
qed

section \<open>A failing model call\<close>






text \<open>
  Claim C10. With \<open>ENABLE_TEXT_PARAM\<close> on, a GET /detect request that carries \<open>text\<close>
  is answered from that one text alone: the handler classifies the list \<open>[text]\<close>, and
  the answer and the trace are the same whatever \<open>texts\<close> holds, as if \<open>texts\<close> had
  not been sent.
\<close>

theorem text_takes_precedence:
  assumes "ENABLE_TEXT_PARAM cfg" and "q_text q = Some t"
  shows "detect_get cfg classifier texts (Some t) labels threshold =
           respond (classify_texts cfg classifier [t]
                      (or_default labels DEFAULT_LABELS) threshold)
       \<and> detect_get cfg classifier texts (Some t) labels threshold =
           detect_get cfg classifier None (Some t) labels threshold
       \<and> get_detect cfg classifier q = get_detect cfg classifier (q \<lparr> q_texts := None \<rparr>)"
proof -
  have handler: "detect_get cfg classifier txs (Some t) labels threshold =
      respond (classify_texts cfg classifier [t] (or_default labels DEFAULT_LABELS) threshold)"
    for txs labels threshold
    using assms(1) by (simp add: detect_get_def)
  have whole: "get_detect cfg classifier q = get_detect cfg classifier (q \<lparr> q_texts := None \<rparr>)"
    using assms(2) by (simp add: get_detect_def handler split: option.splits)
  from handler whole show ?thesis by simp
qed

theorem text_takes_precedence_witness:
  "get_detect shipped_config demo_classifier demo_query =
     (Inr \<lparr> results = [demo_result] \<rparr>, [Classifier_call [''you fool''] DEFAULT_LABELS])
   \<and> get_detect shipped_config demo_classifier demo_query =
     get_detect shipped_config demo_classifier (demo_query \<lparr> q_texts := None \<rparr>)"
proof -
  have on: "ENABLE_TEXT_PARAM shipped_config" by (simp add: shipped_config_def)
  have q: "q_text demo_query = Some ''you fool''" by (simp add: demo_query_def)
  have run: "get_detect shipped_config demo_classifier demo_query =
      (Inr \<lparr> results = [demo_result] \<rparr>, [Classifier_call [''you fool''] DEFAULT_LABELS])"
    by (simp add: get_detect_def detect_get_def demo_query_def shipped_config_def respond_def
        classify_texts_def demo_classifier_def make_result_def dict_of_def dict_update_def
        demo_result_def DEFAULT_LABELS_def)
  from text_takes_precedence [OF on q, of demo_classifier] run
  show ?thesis by simp
qed

end
